theory Spec2Isabelle
  imports Main "HOL-Library.Sublist"
begin

section \<open>The service worker of dial26 (service-worker.js)\<close>

text \<open>
  The worker is event driven: the platform calls its \<^verbatim>\<open>install\<close>,
  \<^verbatim>\<open>activate\<close> and \<^verbatim>\<open>fetch\<close> listeners. Each listener is
  embedded as a function from the worker's state (the origin's CacheStorage, the
  console, the lifecycle flags) to its promise's outcome and the state reached once
  every operation the listener started has settled. What the browser supplies (the
  network, URL parsing, the Cache API's refusals, the time a deletion takes) is the
  record \<open>env\<close>; every theorem holds for every such environment unless it says
  otherwise.
\<close>

subsection \<open>Values of the platform\<close>

record response =
  status :: nat
  statusText :: string
  body :: "string option"

record request =
  req_method :: string
  req_url :: string
  req_mode :: string
  req_destination :: string
  req_accept :: "string option"

text \<open>The two fields of a parsed \<^verbatim>\<open>URL\<close> object that the worker reads.\<close>

record location =
  origin :: string
  pathname :: string

datatype exn = TypeError

text \<open>A call either returns or throws; a promise either fulfils or rejects.\<close>

datatype 'a completion = Returned 'a | Thrown exn

datatype 'a settled = Fulfilled 'a | Rejected

type_synonym cache = "string \<rightharpoonup> response"

text \<open>CacheStorage: the named caches in creation order, keyed by absolute URL.\<close>

type_synonym cache_storage = "(string \<times> cache) list"

datatype log_entry =
    AddAllFailed
  | FailedToCache string
  | PutFailed string

record env =
  self_origin :: string
  resolve :: "string \<Rightarrow> string"
  parse_url :: "string \<Rightarrow> location option"
  net :: "string \<Rightarrow> response option"
  put_rejects :: "string \<Rightarrow> response \<Rightarrow> bool"
  delete_rejects :: "string \<Rightarrow> bool"
  delete_latency :: "string \<Rightarrow> nat"

record sw_state =
  caches :: cache_storage
  console :: "log_entry list"
  skip_waiting_called :: bool

subsection \<open>Configuration constants\<close>

record config =
  CACHE_VERSION :: string
  ASSETS_TO_CACHE :: "string list"

definition CACHE_NAME :: "config \<Rightarrow> string" where
  "CACHE_NAME cfg = ''phone-keypad-'' @ CACHE_VERSION cfg"

definition dial26 :: config where
  "dial26 = \<lparr> CACHE_VERSION = ''v2'',
      ASSETS_TO_CACHE =
        [''/'', ''/index.html'', ''/styles.css'', ''/app.js'', ''/manifest.json'',
         ''/apple-touch-icon-180.png'', ''/icon-192.png'', ''/icon-512.png'',
         ''/favicon-32x32.png'', ''/numpad.png''] \<rparr>"

subsection \<open>Platform operations\<close>

text \<open>\<^verbatim>\<open>new URL(s)\<close> throws a TypeError on a string that is not a URL.\<close>

definition new_URL :: "env \<Rightarrow> string \<Rightarrow> location completion" where
  "new_URL e s = (case parse_url e s of None \<Rightarrow> Thrown TypeError | Some u \<Rightarrow> Returned u)"

text \<open>\<^verbatim>\<open>fetch(req)\<close>: rejects on a network failure, fulfils with any response
  the server gave, whatever its status.\<close>

definition fetch :: "env \<Rightarrow> string \<Rightarrow> response settled" where
  "fetch e u = (case net e u of None \<Rightarrow> Rejected | Some r \<Rightarrow> Fulfilled r)"

text \<open>\<^verbatim>\<open>response.ok\<close>\<close>

definition resp_ok :: "response \<Rightarrow> bool" where
  "resp_ok r = (200 \<le> status r \<and> status r \<le> 299)"

text \<open>\<^verbatim>\<open>caches.open(name)\<close> creates the cache when it does not exist.\<close>

definition caches_open :: "string \<Rightarrow> cache_storage \<Rightarrow> cache_storage" where
  "caches_open name cs =
     (case map_of cs name of None \<Rightarrow> cs @ [(name, Map.empty)] | Some c \<Rightarrow> cs)"

definition cache_of :: "string \<Rightarrow> cache_storage \<Rightarrow> cache" where
  "cache_of name cs = (case map_of cs name of None \<Rightarrow> Map.empty | Some c \<Rightarrow> c)"

fun set_cache :: "string \<Rightarrow> cache \<Rightarrow> cache_storage \<Rightarrow> cache_storage" where
  "set_cache name c [] = []"
| "set_cache name c ((n, c0) # cs) =
     (if n = name then (n, c) # cs else (n, c0) # set_cache name c cs)"

text \<open>\<^verbatim>\<open>caches.match(key)\<close> asks every cache of the origin, in creation order,
  and fulfils with \<^verbatim>\<open>undefined\<close> (\<open>None\<close>) when none has the key.\<close>

fun caches_match :: "cache_storage \<Rightarrow> string \<Rightarrow> response option" where
  "caches_match [] k = None"
| "caches_match ((n, c) # cs) k =
     (case c k of Some r \<Rightarrow> Some r | None \<Rightarrow> caches_match cs k)"

text \<open>\<^verbatim>\<open>cache.put(key, response)\<close> returns a promise. The platform never throws
  from a promise-returning operation: a refused write is a rejection of that promise.\<close>

definition cache_put :: "env \<Rightarrow> string \<Rightarrow> response \<Rightarrow> cache \<Rightarrow> cache settled completion" where
  "cache_put e k r c =
     Returned (if put_rejects e k r then Rejected else Fulfilled (c(k \<mapsto> r)))"

text \<open>\<^verbatim>\<open>cache.add(asset)\<close> fetches the asset and stores the response; it
  rejects on a network failure, on a response that is not ok, and on a refused write.\<close>

definition cache_add :: "env \<Rightarrow> string \<Rightarrow> cache \<Rightarrow> cache settled" where
  "cache_add e asset c =
     (case fetch e (resolve e asset) of
        Rejected \<Rightarrow> Rejected
      | Fulfilled r \<Rightarrow>
          if resp_ok r \<and> \<not> put_rejects e (resolve e asset) r
          then Fulfilled (c(resolve e asset \<mapsto> r)) else Rejected)"

text \<open>\<^verbatim>\<open>cache.addAll(assets)\<close> is one batch: every asset must be fetched with an
  ok response and accepted, and no two may name the same URL; otherwise the promise
  rejects and nothing is written.\<close>

fun add_batch :: "env \<Rightarrow> string list \<Rightarrow> cache \<Rightarrow> cache settled" where
  "add_batch e [] c = Fulfilled c"
| "add_batch e (a # as) c =
     (case cache_add e a c of Rejected \<Rightarrow> Rejected | Fulfilled c' \<Rightarrow> add_batch e as c')"

definition cache_addAll :: "env \<Rightarrow> string list \<Rightarrow> cache \<Rightarrow> cache settled" where
  "cache_addAll e assets c =
     (if distinct (map (resolve e) assets) then add_batch e assets c else Rejected)"

text \<open>\<^verbatim>\<open>Promise.all\<close> fulfils when every promise does and rejects as soon as
  one rejects.\<close>

fun promise_all :: "'a settled list \<Rightarrow> 'a list settled" where
  "promise_all [] = Fulfilled []"
| "promise_all (Rejected # ps) = Rejected"
| "promise_all (Fulfilled x # ps) =
     (case promise_all ps of Rejected \<Rightarrow> Rejected | Fulfilled xs \<Rightarrow> Fulfilled (x # xs))"

text \<open>A promise together with the time at which it settles, on a logical clock.\<close>

record 'a promise =
  settles_at :: nat
  outcome :: "'a settled"

definition is_rejected :: "'a settled \<Rightarrow> bool" where
  "is_rejected p = (case p of Rejected \<Rightarrow> True | Fulfilled x \<Rightarrow> False)"

text \<open>\<^verbatim>\<open>Promise.all\<close> called at time \<open>t\<close>: it fulfils when the last promise
  has fulfilled, and rejects at the earliest rejection.\<close>

definition promise_all_at :: "nat \<Rightarrow> 'a promise list \<Rightarrow> 'a list promise" where
  "promise_all_at t ps =
     \<lparr> settles_at =
         (case filter (\<lambda>p. is_rejected (outcome p)) ps of
            [] \<Rightarrow> fold max (map settles_at ps) t
          | r # rs \<Rightarrow> fold min (map settles_at rs) (settles_at r)),
       outcome = promise_all (map outcome ps) \<rparr>"

text \<open>\<^verbatim>\<open>caches.delete(k)\<close> started at time \<open>t\<close>, and what it does to the storage
  once it has settled.\<close>

definition caches_delete :: "env \<Rightarrow> nat \<Rightarrow> string \<Rightarrow> bool promise" where
  "caches_delete e t k =
     \<lparr> settles_at = t + delete_latency e k,
       outcome = (if delete_rejects e k then Rejected else Fulfilled True) \<rparr>"

definition deleted :: "env \<Rightarrow> string \<Rightarrow> cache_storage \<Rightarrow> cache_storage" where
  "deleted e k cs = (if delete_rejects e k then cs else filter (\<lambda>nc. fst nc \<noteq> k) cs)"

subsection \<open>The image classifier\<close>

text \<open>The \<^verbatim>\<open>i\<close> flag: a letter of the subject matches the pattern's letter in either
  case. Only the 26 ASCII letters have a case here.\<close>

definition to_lower :: "char \<Rightarrow> char" where
  "to_lower ch =
     (case map_of (zip ''ABCDEFGHIJKLMNOPQRSTUVWXYZ'' ''abcdefghijklmnopqrstuvwxyz'') ch of
        Some l \<Rightarrow> l
      | None \<Rightarrow> ch)"

definition image_extensions :: "string list" where
  "image_extensions = [''png'', ''jpg'', ''jpeg'', ''gif'', ''webp'', ''svg'', ''ico'']"

text \<open>\<^verbatim>\<open>/\.(png|jpg|jpeg|gif|webp|svg|ico)$/i.test(p)\<close>\<close>

definition image_regex_test :: "string \<Rightarrow> bool" where
  "image_regex_test p =
     list_ex (\<lambda>x. suffix (CHR ''.'' # x) (map to_lower p)) image_extensions"

definition isImageRequest :: "env \<Rightarrow> request \<Rightarrow> bool completion" where
  "isImageRequest e request =
     (if req_destination request \<noteq> [] \<and> req_destination request = ''image''
      then Returned True
      else case new_URL e (req_url request) of
             Returned u \<Rightarrow> Returned (image_regex_test (pathname u))
           | Thrown x \<Rightarrow> Returned False)"

subsection \<open>Install: cache the app shell\<close>

text \<open>One element of the fallback: \<^verbatim>\<open>try { await cache.add(asset) } catch (e) { warn }\<close>.\<close>

definition add_or_warn ::
  "env \<Rightarrow> string \<Rightarrow> cache \<times> log_entry list \<Rightarrow> unit settled \<times> cache \<times> log_entry list" where
  "add_or_warn e asset cl =
     (case cache_add e asset (fst cl) of
        Fulfilled c' \<Rightarrow> (Fulfilled (), c', snd cl)
      | Rejected \<Rightarrow> (Fulfilled (), fst cl, snd cl @ [FailedToCache asset]))"

fun add_each ::
  "env \<Rightarrow> string list \<Rightarrow> cache \<times> log_entry list \<Rightarrow> unit settled list \<times> cache \<times> log_entry list" where
  "add_each e [] cl = ([], cl)"
| "add_each e (a # as) cl =
     (case add_or_warn e a cl of
        (p, cl') \<Rightarrow> (case add_each e as cl' of (ps, cl'') \<Rightarrow> (p # ps, cl'')))"

text \<open>The listener. The elements of the fallback run concurrently in the source; they
  write different keys or the same response, so the cache they leave does not depend
  on the order, and the warnings are listed in manifest order.\<close>

definition install :: "config \<Rightarrow> env \<Rightarrow> sw_state \<Rightarrow> unit settled \<times> sw_state" where
  "install cfg e s =
     (let s1 = s\<lparr>skip_waiting_called := True\<rparr>;
          cs = caches_open (CACHE_NAME cfg) (caches s1);
          cache = cache_of (CACHE_NAME cfg) cs
      in case cache_addAll e (ASSETS_TO_CACHE cfg) cache of
           Fulfilled c' \<Rightarrow>
             (Fulfilled (), s1\<lparr>caches := set_cache (CACHE_NAME cfg) c' cs\<rparr>)
         | Rejected \<Rightarrow>
             (case add_each e (ASSETS_TO_CACHE cfg) (cache, console s1 @ [AddAllFailed]) of
                (ps, c', l') \<Rightarrow>
                  (case promise_all ps of
                     Fulfilled us \<Rightarrow> Fulfilled ()
                   | Rejected \<Rightarrow> Rejected,
                   s1\<lparr>caches := set_cache (CACHE_NAME cfg) c' cs, console := l'\<rparr>)))"

subsection \<open>Activate: remove old caches and take control\<close>

record activation =
  act_outcome :: "unit settled"
  claimed_at :: "nat option"
  act_caches :: cache_storage

text \<open>The listener: \<^verbatim>\<open>caches.keys()\<close> fulfils at time 0, every deletion starts
  then, and \<^verbatim>\<open>clients.claim()\<close> is called in the \<^verbatim>\<open>then\<close> of
  \<^verbatim>\<open>Promise.all\<close>, so only if it fulfils and at the time it does. A deletion that
  was started takes effect even when another one rejects.\<close>

definition activate :: "config \<Rightarrow> env \<Rightarrow> sw_state \<Rightarrow> activation" where
  "activate cfg e s =
     (let keys = map fst (caches s);
          stale = filter (\<lambda>k. k \<noteq> CACHE_NAME cfg) keys;
          deletions = promise_all_at 0 (map (caches_delete e 0) stale);
          cs' = fold (deleted e) stale (caches s)
      in case outcome deletions of
           Fulfilled bs \<Rightarrow>
             \<lparr> act_outcome = Fulfilled (), claimed_at = Some (settles_at deletions),
               act_caches = cs' \<rparr>
         | Rejected \<Rightarrow>
             \<lparr> act_outcome = Rejected, claimed_at = None, act_caches = cs' \<rparr>)"

subsection \<open>Fetch handler\<close>

datatype fetch_result =
    NotHandled
  | HandlerThrew exn
  | RespondWith "response option"
  | RespondRejected

text \<open>\<^verbatim>\<open>s.includes(sub)\<close>\<close>

fun includes_str :: "string \<Rightarrow> string \<Rightarrow> bool" where
  "includes_str [] sub = (sub = [])"
| "includes_str (c # cs) sub = (prefix sub (c # cs) \<or> includes_str cs sub)"

text \<open>The detached write of the navigation branch:
  \<^verbatim>\<open>caches.open(CACHE_NAME).then(cache => cache.put('/index.html', copy))\<close>.
  Nothing handles a rejection of either promise.\<close>

definition update_index :: "config \<Rightarrow> env \<Rightarrow> response \<Rightarrow> sw_state \<Rightarrow> sw_state" where
  "update_index cfg e copy s =
     (let cs = caches_open (CACHE_NAME cfg) (caches s) in
      case cache_put e (resolve e ''/index.html'') copy (cache_of (CACHE_NAME cfg) cs) of
        Returned (Fulfilled c') \<Rightarrow> s\<lparr>caches := set_cache (CACHE_NAME cfg) c' cs\<rparr>
      | Returned Rejected \<Rightarrow> s\<lparr>caches := cs\<rparr>
      | Thrown x \<Rightarrow> s\<lparr>caches := cs\<rparr>)"

text \<open>The detached write of the cache-first branch:
  \<^verbatim>\<open>caches.open(CACHE_NAME).then(cache => { try { cache.put(req, clone); }
  catch (e) { console.warn(...) } })\<close>. The promise \<^verbatim>\<open>cache.put\<close> returns is
  neither awaited nor given a handler.\<close>

definition store_clone :: "config \<Rightarrow> env \<Rightarrow> request \<Rightarrow> response \<Rightarrow> sw_state \<Rightarrow> sw_state" where
  "store_clone cfg e req clone s =
     (let cs = caches_open (CACHE_NAME cfg) (caches s) in
      case cache_put e (req_url req) clone (cache_of (CACHE_NAME cfg) cs) of
        Returned (Fulfilled c') \<Rightarrow> s\<lparr>caches := set_cache (CACHE_NAME cfg) c' cs\<rparr>
      | Returned Rejected \<Rightarrow> s\<lparr>caches := cs\<rparr>
      | Thrown x \<Rightarrow> s\<lparr>caches := cs, console := console s @ [PutFailed (req_url req)]\<rparr>)"

text \<open>The listener. A non-GET request returns before \<^verbatim>\<open>respondWith\<close>
  (\<open>NotHandled\<close>); otherwise the result is what the promise handed to
  \<^verbatim>\<open>respondWith\<close> settles to, \<open>RespondWith None\<close> standing for \<^verbatim>\<open>undefined\<close>,
  and the state is the one reached when the detached write has settled. A
  \<^verbatim>\<open>Response\<close> object is always truthy, so \<^verbatim>\<open>if (cached)\<close> is the test for a
  match and \<^verbatim>\<open>!networkResponse\<close> is never true. Matching is by URL.\<close>

definition on_fetch :: "config \<Rightarrow> env \<Rightarrow> request \<Rightarrow> sw_state \<Rightarrow> fetch_result \<times> sw_state" where
  "on_fetch cfg e req s =
     (if req_method req \<noteq> ''GET'' then (NotHandled, s)
      else case new_URL e (req_url req) of
        Thrown x \<Rightarrow> (HandlerThrew x, s)
      | Returned reqUrl \<Rightarrow>
          if req_mode req = ''navigate'' \<or>
             includes_str (case req_accept req of None \<Rightarrow> [] | Some a \<Rightarrow> a) ''text/html''
          then
            (case fetch e (req_url req) of
               Fulfilled networkResponse \<Rightarrow>
                 (RespondWith (Some networkResponse), update_index cfg e networkResponse s)
             | Rejected \<Rightarrow>
                 (RespondWith (caches_match (caches s) (resolve e ''/index.html'')), s))
          else
            (case caches_match (caches s) (req_url req) of
               Some cached \<Rightarrow> (RespondWith (Some cached), s)
             | None \<Rightarrow>
                 (case fetch e (req_url req) of
                    Fulfilled networkResponse \<Rightarrow>
                      if status networkResponse \<noteq> 200
                      then (RespondWith (Some networkResponse), s)
                      else if origin reqUrl = self_origin e
                      then (RespondWith (Some networkResponse),
                            store_clone cfg e req networkResponse s)
                      else (RespondWith (Some networkResponse), s)
                  | Rejected \<Rightarrow>
                      (case isImageRequest e req of
                         Returned True \<Rightarrow>
                           (RespondWith
                              (caches_match (caches s) (resolve e ''/apple-touch-icon-180.png'')), s)
                       | Returned False \<Rightarrow>
                           (RespondWith
                              (Some \<lparr> status = 503, statusText = ''Service Unavailable'',
                                      body = None \<rparr>), s)
                       | Thrown x \<Rightarrow> (RespondRejected, s)))))"

subsection \<open>Assets that the install phase can store\<close>

text \<open>An asset URL is storable when its fetch fulfils with an ok response that the
  cache accepts; \<open>overlay\<close> is a cache after every storable URL of a manifest has been
  written.\<close>

definition storable :: "env \<Rightarrow> string \<Rightarrow> bool" where
  "storable e u = (case net e u of None \<Rightarrow> False | Some r \<Rightarrow> resp_ok r \<and> \<not> put_rejects e u r)"

definition overlay :: "env \<Rightarrow> string list \<Rightarrow> cache \<Rightarrow> cache" where
  "overlay e assets c =
     (\<lambda>k. if k \<in> resolve e ` set assets \<and> storable e k then net e k else c k)"

subsection \<open>A concrete deployment\<close>

definition site :: string where
  "site = ''https://dial.example''"

definition site_url :: "string \<Rightarrow> location option" where
  "site_url s =
     (if prefix site s then Some \<lparr> origin = site, pathname = drop (length site) s \<rparr> else None)"

definition page :: response where
  "page = \<lparr> status = 200, statusText = ''OK'', body = Some ''<html>keypad</html>'' \<rparr>"

definition script :: response where
  "script = \<lparr> status = 200, statusText = ''OK'', body = Some ''dial()'' \<rparr>"

definition icon :: response where
  "icon = \<lparr> status = 200, statusText = ''OK'', body = Some ''PNG'' \<rparr>"

definition not_found :: response where
  "not_found = \<lparr> status = 404, statusText = ''Not Found'', body = Some ''no such page'' \<rparr>"

definition partial_page :: response where
  "partial_page = \<lparr> status = 206, statusText = ''Partial Content'', body = Some ''<html>'' \<rparr>"

text \<open>A server that has the page and the script, answers 404 for
  \<^verbatim>\<open>/missing.png\<close> and \<^verbatim>\<open>/old\<close>, 206 for \<^verbatim>\<open>/part\<close>, and is unreachable
  otherwise. The cache refuses a 206 response, as the Cache API does.\<close>

definition online :: env where
  "online =
     \<lparr> self_origin = site,
       resolve = (\<lambda>p. site @ p),
       parse_url = site_url,
       net = (\<lambda>u. if u = site @ ''/'' then Some page
                  else if u = site @ ''/app.js'' then Some script
                  else if u = site @ ''/missing.png'' then Some not_found
                  else if u = site @ ''/old'' then Some not_found
                  else if u = site @ ''/part'' then Some partial_page
                  else None),
       put_rejects = (\<lambda>k r. status r = 206),
       delete_rejects = (\<lambda>k. False),
       delete_latency = (\<lambda>k. length k) \<rparr>"

text \<open>The same server when the store's quota is used up: every write is refused.\<close>

definition quota_exceeded :: env where
  "quota_exceeded = online\<lparr> put_rejects := (\<lambda>k r. True) \<rparr>"

text \<open>No network at all.\<close>

definition offline :: env where
  "offline = online\<lparr> net := (\<lambda>u. None) \<rparr>"

definition get :: "string \<Rightarrow> string \<Rightarrow> string \<Rightarrow> string option \<Rightarrow> request" where
  "get path m d a =
     \<lparr> req_method = ''GET'', req_url = site @ path, req_mode = m, req_destination = d,
       req_accept = a \<rparr>"

definition fresh :: sw_state where
  "fresh = \<lparr> caches = [], console = [], skip_waiting_called = False \<rparr>"

text \<open>The current store holding the shell: root document, script and fallback icon.\<close>

definition shell :: cache where
  "shell = [site @ ''/index.html'' \<mapsto> page, site @ ''/app.js'' \<mapsto> script,
            site @ ''/apple-touch-icon-180.png'' \<mapsto> icon]"

definition installed :: sw_state where
  "installed = fresh\<lparr> caches := [(''phone-keypad-v2'', shell)] \<rparr>"

definition upgrading :: sw_state where
  "upgrading = fresh\<lparr> caches := [(''phone-keypad-v1'', shell), (''phone-keypad-v2'', shell)] \<rparr>"

definition only_v1 :: sw_state where
  "only_v1 = fresh\<lparr> caches := [(''phone-keypad-v1'', shell)] \<rparr>"

text \<open>Three stores: the previous generation, a cache the page made, the current one.\<close>

definition crowded :: sw_state where
  "crowded = fresh\<lparr> caches :=
     [(''phone-keypad-v1'', shell), (''scratch'', Map.empty), (''phone-keypad-v2'', shell)] \<rparr>"

text \<open>An object with a \<^verbatim>\<open>url\<close> that is not a URL.\<close>

definition malformed :: request where
  "malformed = \<lparr> req_method = ''GET'', req_url = ''not a url'', req_mode = ''cors'',
       req_destination = ''script'', req_accept = None \<rparr>"

definition small_manifest :: config where
  "small_manifest = \<lparr> CACHE_VERSION = ''v2'',
      ASSETS_TO_CACHE = [''/'', ''/app.js'', ''/missing.png''] \<rparr>"

section \<open>Properties\<close>

subsection \<open>The cache storage\<close>

lemma map_of_set_cache:
  "map_of (set_cache n c cs) m =
     (if m = n then (case map_of cs n of None \<Rightarrow> None | Some x \<Rightarrow> Some c) else map_of cs m)"
  by (induction cs) auto

lemma map_of_caches_open: "map_of (caches_open n cs) n \<noteq> None"
  by (cases "map_of cs n") (simp_all add: caches_open_def map_add_def)

lemma cache_of_set_cache: "cache_of n (set_cache n c (caches_open n cs)) = c"
  using map_of_caches_open [of n cs]
  by (auto simp: cache_of_def map_of_set_cache split: option.splits)

lemma caches_open_present: "map_of cs n \<noteq> None \<Longrightarrow> caches_open n cs = cs"
  by (auto simp: caches_open_def)

lemma caches_open_set_cache:
  "caches_open n (set_cache n c (caches_open n cs)) = set_cache n c (caches_open n cs)"
  using map_of_caches_open [of n cs]
  by (intro caches_open_present) (auto simp: map_of_set_cache)

lemma set_cache_twice: "set_cache n c (set_cache n c' cs) = set_cache n c cs"
  by (induction cs) auto

lemma map_fst_set_cache: "map fst (set_cache n c cs) = map fst cs"
  by (induction cs) auto

subsection \<open>Install\<close>

lemma cache_add_storable:
  "cache_add e a c =
     (if storable e (resolve e a) then Fulfilled (c(resolve e a := net e (resolve e a)))
      else Rejected)"
  by (auto simp: cache_add_def storable_def fetch_def split: option.splits)

lemma overlay_Nil: "overlay e [] c = c"
  by (simp add: overlay_def)

lemma overlay_Cons:
  "overlay e (a # as) c =
     overlay e as (if storable e (resolve e a) then c(resolve e a := net e (resolve e a)) else c)"
  by (rule ext) (auto simp: overlay_def)

text \<open>The batch writes every asset or nothing.\<close>

lemma add_batch_overlay:
  "add_batch e as c =
     (if list_all (\<lambda>a. storable e (resolve e a)) as then Fulfilled (overlay e as c)
      else Rejected)"
  by (induction as arbitrary: c) (simp_all add: overlay_Nil overlay_Cons cache_add_storable)

text \<open>The fallback writes what it can, warns once for each asset it cannot store, and
  none of its promises rejects.\<close>

lemma add_each_overlay:
  "add_each e as (c, l) =
     (replicate (length as) (Fulfilled ()), overlay e as c,
      l @ map FailedToCache (filter (\<lambda>a. \<not> storable e (resolve e a)) as))"
  by (induction as arbitrary: c l)
     (simp_all add: overlay_Nil overlay_Cons cache_add_storable add_or_warn_def)

lemma promise_all_replicate:
  "promise_all (replicate n (Fulfilled x)) = Fulfilled (replicate n x)"
  by (induction n) simp_all

lemma overlay_idem: "overlay e as (overlay e as c) = overlay e as c"
  by (rule ext) (simp add: overlay_def)

lemma install_caches:
  "caches (snd (install cfg e s)) =
     set_cache (CACHE_NAME cfg)
       (overlay e (ASSETS_TO_CACHE cfg)
          (cache_of (CACHE_NAME cfg) (caches_open (CACHE_NAME cfg) (caches s))))
       (caches_open (CACHE_NAME cfg) (caches s))"
  by (simp add: install_def Let_def cache_addAll_def add_batch_overlay add_each_overlay
        promise_all_replicate)

lemma install_fulfils: "fst (install cfg e s) = Fulfilled ()"
  by (simp add: install_def Let_def cache_addAll_def add_batch_overlay add_each_overlay
        promise_all_replicate)

text \<open>
  C9. Install is idempotent. For every manifest and version tag, in a fixed
  environment and from any state, running the install phase a second time leaves the
  cache storage exactly as the first run left it, and the second run's promise
  fulfils. A cache maps a URL to at most one response and a store is opened, not
  created, when it exists: nothing can be duplicated.
\<close>

theorem install_idempotent:
  "caches (snd (install cfg e (snd (install cfg e s)))) = caches (snd (install cfg e s)) \<and>
   fst (install cfg e (snd (install cfg e s))) = Fulfilled ()"
  by (simp add: install_caches install_fulfils caches_open_set_cache cache_of_set_cache
        overlay_idem set_cache_twice)

text \<open>The witness: installing the three-entry manifest twice on the example server.\<close>

theorem install_idempotent_witness:
  "caches (snd (install small_manifest online (snd (install small_manifest online fresh)))) =
     caches (snd (install small_manifest online fresh)) \<and>
   fst (install small_manifest online (snd (install small_manifest online fresh))) = Fulfilled () \<and>
   map fst (caches (snd (install small_manifest online (snd (install small_manifest online fresh))))) =
     [''phone-keypad-v2'']"
proof -
  have "map fst (caches (snd (install small_manifest online fresh))) = [''phone-keypad-v2'']"
    by (simp add: install_caches map_fst_set_cache caches_open_def fresh_def CACHE_NAME_def
        small_manifest_def)
  with install_idempotent [of small_manifest online fresh] show ?thesis by simp
qed

lemma cache_addAll_overlay:
  "cache_addAll e as c =
     (if distinct (map (resolve e) as) \<and> list_all (\<lambda>a. storable e (resolve e a)) as
      then Fulfilled (overlay e as c) else Rejected)"
  by (simp add: cache_addAll_def add_batch_overlay)

lemma install_console:
  "console (snd (install cfg e s)) =
     (case cache_addAll e (ASSETS_TO_CACHE cfg)
             (cache_of (CACHE_NAME cfg) (caches_open (CACHE_NAME cfg) (caches s))) of
        Fulfilled c' \<Rightarrow> console s
      | Rejected \<Rightarrow>
          console s @ AddAllFailed #
            map FailedToCache (filter (\<lambda>a. \<not> storable e (resolve e a)) (ASSETS_TO_CACHE cfg)))"
  by (simp add: install_def Let_def add_each_overlay split: settled.splits)

lemma install_cache:
  "cache_of (CACHE_NAME cfg) (caches (snd (install cfg e s))) =
     overlay e (ASSETS_TO_CACHE cfg)
       (cache_of (CACHE_NAME cfg) (caches_open (CACHE_NAME cfg) (caches s)))"
  by (simp add: install_caches cache_of_set_cache)

lemma storable_net: "storable e u \<Longrightarrow> net e u \<noteq> None"
  by (auto simp: storable_def split: option.splits)

text \<open>
  C6. Install-phase population. The install phase first tries the whole manifest as
  one batch, which stores every entry or nothing. When the batch is rejected, a
  warning is logged and every entry is fetched and stored on its own: an entry that can
  be added ends in the store with the network's response, whatever happens to the
  others, and an entry that cannot is logged and leaves its key as it was. URLs that
  the manifest does not name are untouched, and the install promise fulfils in
  every case.
\<close>

theorem install_population:
  assumes "name = CACHE_NAME cfg"
    and "before = cache_of name (caches_open name (caches s))"
    and "s' = snd (install cfg e s)"
    and "after = cache_of name (caches s')"
  shows "fst (install cfg e s) = Fulfilled () \<and>
    (\<forall>k. k \<notin> resolve e ` set (ASSETS_TO_CACHE cfg) \<longrightarrow> after k = before k) \<and>
    (\<forall>c'. cache_addAll e (ASSETS_TO_CACHE cfg) before = Fulfilled c' \<longrightarrow>
       after = c' \<and> console s' = console s \<and>
       (\<forall>a \<in> set (ASSETS_TO_CACHE cfg).
          after (resolve e a) = net e (resolve e a) \<and> after (resolve e a) \<noteq> None)) \<and>
    (cache_addAll e (ASSETS_TO_CACHE cfg) before = Rejected \<longrightarrow>
       AddAllFailed \<in> set (console s') \<and>
       (\<forall>a \<in> set (ASSETS_TO_CACHE cfg).
          (\<forall>c1. cache_add e a before = Fulfilled c1 \<longrightarrow>
             after (resolve e a) = c1 (resolve e a) \<and>
             after (resolve e a) = net e (resolve e a) \<and> after (resolve e a) \<noteq> None) \<and>
          (cache_add e a before = Rejected \<longrightarrow>
             FailedToCache a \<in> set (console s') \<and> after (resolve e a) = before (resolve e a))))"
proof -
  have after: "after = overlay e (ASSETS_TO_CACHE cfg) before"
    using assms by (simp add: install_cache)
  have cons: "console s' =
      (case cache_addAll e (ASSETS_TO_CACHE cfg) before of
         Fulfilled c' \<Rightarrow> console s
       | Rejected \<Rightarrow>
           console s @ AddAllFailed #
             map FailedToCache (filter (\<lambda>a. \<not> storable e (resolve e a)) (ASSETS_TO_CACHE cfg)))"
    using assms by (simp add: install_console)
  have frame: "\<forall>k. k \<notin> resolve e ` set (ASSETS_TO_CACHE cfg) \<longrightarrow> after k = before k"
    by (simp add: after overlay_def)
  have bulk: "\<forall>c'. cache_addAll e (ASSETS_TO_CACHE cfg) before = Fulfilled c' \<longrightarrow>
       after = c' \<and> console s' = console s \<and>
       (\<forall>a \<in> set (ASSETS_TO_CACHE cfg).
          after (resolve e a) = net e (resolve e a) \<and> after (resolve e a) \<noteq> None)"
  proof (intro allI impI)
    fix c'
    assume ok: "cache_addAll e (ASSETS_TO_CACHE cfg) before = Fulfilled c'"
    then have all: "list_all (\<lambda>a. storable e (resolve e a)) (ASSETS_TO_CACHE cfg)"
      and c': "c' = overlay e (ASSETS_TO_CACHE cfg) before"
      by (auto simp: cache_addAll_overlay split: if_splits)
    have "\<forall>a \<in> set (ASSETS_TO_CACHE cfg).
          after (resolve e a) = net e (resolve e a) \<and> after (resolve e a) \<noteq> None"
      using all by (auto simp: after overlay_def list_all_iff dest: storable_net)
    moreover have "after = c'" by (simp add: after c')
    moreover have "console s' = console s" by (simp add: cons ok)
    ultimately show "after = c' \<and> console s' = console s \<and>
       (\<forall>a \<in> set (ASSETS_TO_CACHE cfg).
          after (resolve e a) = net e (resolve e a) \<and> after (resolve e a) \<noteq> None)"
      by blast
  qed
  have each: "cache_addAll e (ASSETS_TO_CACHE cfg) before = Rejected \<longrightarrow>
       AddAllFailed \<in> set (console s') \<and>
       (\<forall>a \<in> set (ASSETS_TO_CACHE cfg).
          (\<forall>c1. cache_add e a before = Fulfilled c1 \<longrightarrow>
             after (resolve e a) = c1 (resolve e a) \<and>
             after (resolve e a) = net e (resolve e a) \<and> after (resolve e a) \<noteq> None) \<and>
          (cache_add e a before = Rejected \<longrightarrow>
             FailedToCache a \<in> set (console s') \<and> after (resolve e a) = before (resolve e a)))"
  proof (intro impI conjI ballI allI)
    assume "cache_addAll e (ASSETS_TO_CACHE cfg) before = Rejected"
    then show "AddAllFailed \<in> set (console s')" by (simp add: cons)
  next
    fix a c1
    assume "a \<in> set (ASSETS_TO_CACHE cfg)" and "cache_add e a before = Fulfilled c1"
    then have a: "a \<in> set (ASSETS_TO_CACHE cfg)" and st: "storable e (resolve e a)"
      and c1: "c1 = before(resolve e a := net e (resolve e a))"
      by (auto simp: cache_add_storable split: if_splits)
    from a st show "after (resolve e a) = net e (resolve e a)"
      by (auto simp: after overlay_def)
    with c1 show "after (resolve e a) = c1 (resolve e a)" by simp
    from a st show "after (resolve e a) \<noteq> None"
      by (auto simp: after overlay_def dest: storable_net)
  next
    fix a
    assume rej: "cache_addAll e (ASSETS_TO_CACHE cfg) before = Rejected"
      and a: "a \<in> set (ASSETS_TO_CACHE cfg)" and "cache_add e a before = Rejected"
    then have st: "\<not> storable e (resolve e a)"
      by (auto simp: cache_add_storable split: if_splits)
    with a rej show "FailedToCache a \<in> set (console s')" by (simp add: cons)
    from st show "after (resolve e a) = before (resolve e a)"
      by (simp add: after overlay_def)
  qed
  from install_fulfils frame bulk each show ?thesis by blast
qed

text \<open>The witness: the manifest \<^verbatim>\<open>["/", "/app.js", "/missing.png"]\<close> on a server
  that answers 404 for \<^verbatim>\<open>/missing.png\<close>, from an empty storage: the store ends with
  exactly the two other entries, and the console with the two warnings.\<close>

theorem install_population_witness:
  "fst (install small_manifest online fresh) = Fulfilled () \<and>
   console (snd (install small_manifest online fresh)) =
     [AddAllFailed, FailedToCache ''/missing.png''] \<and>
   cache_of ''phone-keypad-v2'' (caches (snd (install small_manifest online fresh)))
     (site @ ''/'') = Some page \<and>
   cache_of ''phone-keypad-v2'' (caches (snd (install small_manifest online fresh)))
     (site @ ''/app.js'') = Some script \<and>
   dom (cache_of ''phone-keypad-v2'' (caches (snd (install small_manifest online fresh)))) =
     {site @ ''/'', site @ ''/app.js''} \<and>
   card (dom (cache_of ''phone-keypad-v2'' (caches (snd (install small_manifest online fresh))))) = 2"
proof -
  let ?s' = "snd (install small_manifest online fresh)"
  let ?before = "cache_of ''phone-keypad-v2'' (caches_open ''phone-keypad-v2'' (caches fresh))"
  let ?after = "cache_of ''phone-keypad-v2'' (caches ?s')"
  have name: "''phone-keypad-v2'' = CACHE_NAME small_manifest"
    by (simp add: CACHE_NAME_def small_manifest_def)
  have empty: "?before = Map.empty"
    by (simp add: fresh_def caches_open_def cache_of_def)
  have rej: "cache_addAll online (ASSETS_TO_CACHE small_manifest) ?before = Rejected"
    by (simp add: cache_addAll_overlay small_manifest_def storable_def online_def site_def
        not_found_def resp_ok_def)
  have root: "cache_add online ''/'' ?before = Fulfilled (?before(site @ ''/'' \<mapsto> page))"
    by (simp add: cache_add_def fetch_def online_def page_def resp_ok_def site_def)
  have app: "cache_add online ''/app.js'' ?before = Fulfilled (?before(site @ ''/app.js'' \<mapsto> script))"
    by (simp add: cache_add_def fetch_def online_def script_def resp_ok_def site_def)
  have missing: "cache_add online ''/missing.png'' ?before = Rejected"
    by (simp add: cache_add_def fetch_def online_def not_found_def resp_ok_def site_def)
  note pop = install_population [OF name refl refl refl, of online fresh]
  from pop have ful: "fst (install small_manifest online fresh) = Fulfilled ()"
    by blast
  from pop rej root have r: "?after (site @ ''/'') = Some page"
    by (simp add: small_manifest_def online_def)
  from pop rej app have a: "?after (site @ ''/app.js'') = Some script"
    by (simp add: small_manifest_def online_def)
  from pop rej missing empty have m: "?after (site @ ''/missing.png'') = None"
    by (simp add: small_manifest_def online_def)
  from pop empty have other: "\<forall>k. k \<notin> {site @ ''/'', site @ ''/app.js'', site @ ''/missing.png''} \<longrightarrow> ?after k = None"
    by (simp add: small_manifest_def online_def)
  have d: "dom ?after = {site @ ''/'', site @ ''/app.js''}"
    using r a m other by (auto simp: dom_def)
  have cons: "console ?s' = [AddAllFailed, FailedToCache ''/missing.png'']"
    by (simp add: install_def Let_def cache_addAll_def cache_add_def add_or_warn_def fetch_def
        small_manifest_def online_def fresh_def CACHE_NAME_def caches_open_def cache_of_def
        resp_ok_def page_def script_def not_found_def site_def)
  have "card {site @ ''/'', site @ ''/app.js''} = 2"
    by (simp add: site_def)
  with ful r a d cons show ?thesis by simp
qed

subsection \<open>Activate\<close>

lemma promise_all_fulfilled_iff:
  "(\<exists>xs. promise_all ps = Fulfilled xs) \<longleftrightarrow> (\<forall>p \<in> set ps. \<not> is_rejected p)"
  by (induction ps rule: promise_all.induct) (auto simp: is_rejected_def split: settled.splits)

lemma fold_max_ge: "t \<le> fold max xs (t::nat)"
  by (induction xs arbitrary: t) (auto intro: order_trans [OF max.cobounded2])

lemma fold_max_mem: "x \<in> set xs \<Longrightarrow> x \<le> fold max xs (t::nat)"
proof (induction xs arbitrary: t)
  case Nil
  then show ?case by simp
next
  case (Cons y ys)
  show ?case
  proof (cases "x = y")
    case True
    have "y \<le> max y t" by simp
    also have "\<dots> \<le> fold max ys (max y t)" by (rule fold_max_ge)
    finally show ?thesis using True by simp
  next
    case False
    with Cons.prems have "x \<in> set ys" by simp
    then show ?thesis using Cons.IH by simp
  qed
qed

lemma fold_deleted:
  "\<forall>k \<in> set ks. \<not> delete_rejects e k \<Longrightarrow>
   fold (deleted e) ks cs = filter (\<lambda>nc. fst nc \<notin> set ks) cs"
proof (induction ks arbitrary: cs)
  case Nil
  then show ?case by simp
next
  case (Cons k ks)
  then show ?case by (auto simp: deleted_def intro: filter_cong)
qed

lemma deletions_not_rejected:
  "(\<forall>p \<in> set (map (outcome \<circ> caches_delete e t) ks). \<not> is_rejected p) \<longleftrightarrow>
   (\<forall>k \<in> set ks. \<not> delete_rejects e k)"
  by (induction ks) (simp_all add: caches_delete_def is_rejected_def)

text \<open>The activation's promise fulfils exactly when no deletion of a stale store rejects.\<close>

lemma activate_outcome:
  "act_outcome (activate cfg e s) = Fulfilled () \<longleftrightarrow>
     (\<forall>k \<in> set (map fst (caches s)). k \<noteq> CACHE_NAME cfg \<longrightarrow> \<not> delete_rejects e k)"
proof -
  let ?stale = "filter (\<lambda>k. k \<noteq> CACHE_NAME cfg) (map fst (caches s))"
  let ?ps = "map (outcome \<circ> caches_delete e 0) ?stale"
  have "act_outcome (activate cfg e s) = Fulfilled () \<longleftrightarrow> (\<exists>xs. promise_all ?ps = Fulfilled xs)"
    by (auto simp: activate_def Let_def promise_all_at_def split: settled.splits)
  also have "\<dots> \<longleftrightarrow> (\<forall>p \<in> set ?ps. \<not> is_rejected p)"
    by (rule promise_all_fulfilled_iff)
  also have "\<dots> \<longleftrightarrow> (\<forall>k \<in> set ?stale. \<not> delete_rejects e k)"
    by (rule deletions_not_rejected)
  also have "\<dots> \<longleftrightarrow>
      (\<forall>k \<in> set (map fst (caches s)). k \<noteq> CACHE_NAME cfg \<longrightarrow> \<not> delete_rejects e k)"
    by auto
  finally show ?thesis .
qed

lemma activate_caches:
  assumes "act_outcome (activate cfg e s) = Fulfilled ()"
  shows "act_caches (activate cfg e s) = filter (\<lambda>nc. fst nc = CACHE_NAME cfg) (caches s)"
proof -
  let ?stale = "filter (\<lambda>k. k \<noteq> CACHE_NAME cfg) (map fst (caches s))"
  have ok: "\<forall>k \<in> set ?stale. \<not> delete_rejects e k"
    using assms by (auto simp: activate_outcome)
  have "act_caches (activate cfg e s) = fold (deleted e) ?stale (caches s)"
    by (simp add: activate_def Let_def split: settled.splits)
  also have "\<dots> = filter (\<lambda>nc. fst nc \<notin> set ?stale) (caches s)"
    by (rule fold_deleted [OF ok])
  also have "\<dots> = filter (\<lambda>nc. fst nc = CACHE_NAME cfg) (caches s)"
    by (rule filter_cong) auto
  finally show ?thesis .
qed

lemma filter_eq_singleton:
  "distinct xs \<Longrightarrow> x \<in> set xs \<Longrightarrow> filter (\<lambda>y. y = x) xs = [x]"
  by (induction xs) (auto simp: filter_empty_conv)

text \<open>
  C3, as the code has it. When the activate phase for the version tag V2 completes,
  every store whose name differs from V2's derived name has been deleted, the store of
  any other tag V1 among them, and V2's store is kept as it was. Activation creates no
  store: exactly one store exists afterwards when V2's store was among the
  pre-existing ones (as it is once install has completed), and none exists when it
  was not.
\<close>

theorem activate_evicts_stale:
  assumes "act_outcome (activate cfg e s) = Fulfilled ()"
  shows "act_caches (activate cfg e s) = filter (\<lambda>nc. fst nc = CACHE_NAME cfg) (caches s) \<and>
         (v1 \<noteq> CACHE_VERSION cfg \<longrightarrow>
            CACHE_NAME (cfg\<lparr>CACHE_VERSION := v1\<rparr>) \<notin>
              set (map fst (act_caches (activate cfg e s)))) \<and>
         (distinct (map fst (caches s)) \<longrightarrow> CACHE_NAME cfg \<in> set (map fst (caches s)) \<longrightarrow>
            map fst (act_caches (activate cfg e s)) = [CACHE_NAME cfg]) \<and>
         (CACHE_NAME cfg \<notin> set (map fst (caches s)) \<longrightarrow> act_caches (activate cfg e s) = [])"
proof -
  have eq: "act_caches (activate cfg e s) = filter (\<lambda>nc. fst nc = CACHE_NAME cfg) (caches s)"
    by (rule activate_caches [OF assms])
  have names: "map fst (act_caches (activate cfg e s)) =
      filter (\<lambda>k. k = CACHE_NAME cfg) (map fst (caches s))"
    by (simp add: eq filter_map comp_def)
  have "v1 \<noteq> CACHE_VERSION cfg \<longrightarrow>
      CACHE_NAME (cfg\<lparr>CACHE_VERSION := v1\<rparr>) \<notin> set (map fst (act_caches (activate cfg e s)))"
    unfolding names by (auto simp: CACHE_NAME_def)
  moreover have "distinct (map fst (caches s)) \<longrightarrow> CACHE_NAME cfg \<in> set (map fst (caches s)) \<longrightarrow>
      map fst (act_caches (activate cfg e s)) = [CACHE_NAME cfg]"
    unfolding names using filter_eq_singleton [of "map fst (caches s)" "CACHE_NAME cfg"] by blast
  moreover have "CACHE_NAME cfg \<notin> set (map fst (caches s)) \<longrightarrow> act_caches (activate cfg e s) = []"
    unfolding eq by (force simp: filter_empty_conv)
  ultimately show ?thesis using eq by blast
qed

text \<open>The witness: the stores of v1 and v2 exist and v2 is activated.\<close>

theorem activate_evicts_stale_witness:
  "act_outcome (activate dial26 online upgrading) = Fulfilled () \<and>
   act_caches (activate dial26 online upgrading) = [(''phone-keypad-v2'', shell)] \<and>
   ''phone-keypad-v1'' \<notin> set (map fst (act_caches (activate dial26 online upgrading)))"
proof -
  have fin: "act_outcome (activate dial26 online upgrading) = Fulfilled ()"
    by (simp add: activate_outcome online_def)
  have v1: "''v1'' \<noteq> CACHE_VERSION dial26"
    by (simp add: dial26_def)
  from activate_evicts_stale [OF fin, of "''v1''"] v1 fin show ?thesis
    by (simp add: upgrading_def fresh_def CACHE_NAME_def dial26_def)
qed

text \<open>
  The claim as stated fails when V2's store is not among the pre-existing stores:
  from the single store of v1, activating v2 completes and leaves no store at all.
\<close>

theorem activate_leaves_no_store:
  "act_outcome (activate dial26 online only_v1) = Fulfilled () \<and>
   map fst (caches only_v1) = [''phone-keypad-v1''] \<and>
   act_caches (activate dial26 online only_v1) = [] \<and>
   map fst (act_caches (activate dial26 online only_v1)) \<noteq> [CACHE_NAME dial26]"
  by (simp add: activate_def only_v1_def fresh_def online_def CACHE_NAME_def dial26_def
      promise_all_at_def caches_delete_def deleted_def is_rejected_def)

text \<open>
  C8. Deletion comes before the claim. In every run of the activate phase in which
  \<^verbatim>\<open>clients.claim()\<close> is called, at time \<open>t\<close>, the deletion of each stale store has
  fulfilled, and it settled no later than \<open>t\<close>: no deletion is pending or has failed
  when control is claimed. The deletions run concurrently, each with a latency of its
  own.
\<close>

theorem deletions_settle_before_claim:
  assumes "claimed_at (activate cfg e s) = Some t"
    and "k \<in> set (map fst (caches s))" and "k \<noteq> CACHE_NAME cfg"
  shows "outcome (caches_delete e 0 k) = Fulfilled True \<and> settles_at (caches_delete e 0 k) \<le> t"
proof -
  let ?stale = "filter (\<lambda>k. k \<noteq> CACHE_NAME cfg) (map fst (caches s))"
  let ?ds = "map (caches_delete e 0) ?stale"
  have ful: "act_outcome (activate cfg e s) = Fulfilled ()"
    using assms(1) by (auto simp: activate_def Let_def split: settled.splits)
  then have ok: "\<forall>k \<in> set ?stale. \<not> delete_rejects e k"
    by (auto simp: activate_outcome)
  have k: "k \<in> set ?stale" using assms(2,3) by simp
  have none: "filter (\<lambda>p. is_rejected (outcome p)) ?ds = []"
    using ok by (auto simp: filter_empty_conv caches_delete_def is_rejected_def)
  have "t = settles_at (promise_all_at 0 ?ds)"
    using assms(1) by (auto simp: activate_def Let_def split: settled.splits)
  also have "\<dots> = fold max (map settles_at ?ds) 0"
    by (simp add: promise_all_at_def none)
  finally have t: "t = fold max (map settles_at ?ds) 0" .
  have "settles_at (caches_delete e 0 k) \<in> set (map settles_at ?ds)"
    using k by (intro image_eqI [where x = "caches_delete e 0 k"] | simp)+
  then have "settles_at (caches_delete e 0 k) \<le> t"
    unfolding t by (rule fold_max_mem)
  moreover have "outcome (caches_delete e 0 k) = Fulfilled True"
    using ok k by (simp add: caches_delete_def)
  ultimately show ?thesis by simp
qed

text \<open>The witness: two stale stores, deleted after 15 and 7 ticks; the claim is at 15.\<close>

theorem deletions_settle_before_claim_witness:
  "claimed_at (activate dial26 online crowded) = Some 15 \<and>
   outcome (caches_delete online 0 ''scratch'') = Fulfilled True \<and>
   settles_at (caches_delete online 0 ''scratch'') = 7 \<and>
   settles_at (caches_delete online 0 ''scratch'') \<le> 15"
proof -
  have c: "claimed_at (activate dial26 online crowded) = Some 15"
    by (simp add: activate_def crowded_def fresh_def online_def CACHE_NAME_def dial26_def
        promise_all_at_def caches_delete_def is_rejected_def)
  have m: "''scratch'' \<in> set (map fst (caches crowded))"
    by (simp add: crowded_def fresh_def)
  have n: "''scratch'' \<noteq> CACHE_NAME dial26"
    by (simp add: CACHE_NAME_def dial26_def)
  have "settles_at (caches_delete online 0 ''scratch'') = 7"
    by (simp add: caches_delete_def online_def)
  with c deletions_settle_before_claim [OF c m n] show ?thesis by simp
qed

subsection \<open>The image classifier\<close>

lemma to_lower_dot: "to_lower ch = CHR ''.'' \<longleftrightarrow> ch = CHR ''.''"
  by (auto simp: to_lower_def split: option.splits if_splits)

lemma suffix_dot_ext:
  "suffix (CHR ''.'' # x) (map to_lower p) \<longleftrightarrow>
     (\<exists>stem ext. p = stem @ ''.'' @ ext \<and> map to_lower ext = x)"
proof
  assume "suffix (CHR ''.'' # x) (map to_lower p)"
  then obtain zs where "map to_lower p = zs @ CHR ''.'' # x"
    by (auto simp: suffix_def)
  then obtain us z vs where p: "p = us @ z # vs" and z: "to_lower z = CHR ''.''"
    and vs: "map to_lower vs = x"
    by (auto simp: map_eq_append_conv map_eq_Cons_conv)
  from z have "z = CHR ''.''" by (simp add: to_lower_dot)
  with p vs show "\<exists>stem ext. p = stem @ ''.'' @ ext \<and> map to_lower ext = x"
    by auto
next
  assume "\<exists>stem ext. p = stem @ ''.'' @ ext \<and> map to_lower ext = x"
  then obtain stem ext where p: "p = stem @ ''.'' @ ext" and x: "map to_lower ext = x"
    by blast
  have "to_lower CHR ''.'' = CHR ''.''" by (simp add: to_lower_dot)
  with p x have "map to_lower p = map to_lower stem @ CHR ''.'' # x" by simp
  then show "suffix (CHR ''.'' # x) (map to_lower p)"
    by (simp add: suffix_def)
qed

text \<open>The pattern accepts exactly the paths that end in a dot and one of the seven
  extensions, in any mix of upper and lower case.\<close>

lemma image_regex_test_iff:
  "image_regex_test p \<longleftrightarrow>
     (\<exists>stem ext. p = stem @ ''.'' @ ext \<and> map to_lower ext \<in> set image_extensions)"
  unfolding image_regex_test_def list_ex_iff suffix_dot_ext by blast

lemma isImageRequest_parsed:
  "new_URL e (req_url req) = Returned u \<Longrightarrow>
   isImageRequest e req =
     Returned (req_destination req = ''image'' \<or> image_regex_test (pathname u))"
  by (auto simp: isImageRequest_def)

text \<open>
  C10. The image classifier never throws. For every request and every environment
  \<^verbatim>\<open>isImageRequest\<close> returns a boolean; when the destination is not
  \<^verbatim>\<open>'image'\<close> and \<^verbatim>\<open>new URL(request.url)\<close> throws, the exception is caught and
  the result is \<^verbatim>\<open>false\<close>.
\<close>

theorem isImageRequest_never_throws:
  "(\<exists>b. isImageRequest e request = Returned b) \<and>
   (req_destination request \<noteq> ''image'' \<longrightarrow> new_URL e (req_url request) = Thrown x \<longrightarrow>
      isImageRequest e request = Returned False)"
  by (auto simp: isImageRequest_def split: completion.splits)

text \<open>The witness: a script request whose \<^verbatim>\<open>url\<close> does not parse.\<close>

theorem isImageRequest_never_throws_witness:
  "new_URL online (req_url malformed) = Thrown TypeError \<and>
   isImageRequest online malformed = Returned False"
proof -
  have t: "new_URL online (req_url malformed) = Thrown TypeError"
    by (simp add: new_URL_def online_def site_url_def site_def malformed_def)
  have d: "req_destination malformed \<noteq> ''image''"
    by (simp add: malformed_def)
  from isImageRequest_never_throws [of online malformed TypeError] t d show ?thesis
    by blast
qed

subsection \<open>Fetch\<close>

text \<open>Whether the cache accepts a write never changes what the page receives.\<close>

lemma write_failure_not_surfaced:
  "fst (on_fetch cfg (e\<lparr>put_rejects := p\<rparr>) req s) = fst (on_fetch cfg e req s)"
  by (simp add: on_fetch_def new_URL_def fetch_def isImageRequest_def
      split: option.splits settled.splits completion.splits bool.splits)

text \<open>The cache-first branch changes the state only for a response with status 200 to
  a request of the worker's own origin.\<close>

lemma cache_first_stores_only_200:
  assumes "req_method req = ''GET''"
    and "new_URL e (req_url req) = Returned u"
    and "req_mode req \<noteq> ''navigate''"
    and "\<not> includes_str (case req_accept req of None \<Rightarrow> [] | Some a \<Rightarrow> a) ''text/html''"
    and "snd (on_fetch cfg e req s) \<noteq> s"
  shows "\<exists>r. net e (req_url req) = Some r \<and> status r = 200 \<and> origin u = self_origin e"
  using assms
  by (auto simp: on_fetch_def fetch_def split: option.splits completion.splits bool.splits if_splits)

text \<open>
  C1, as the code has it. For every GET request classified as a navigation (mode
  \<^verbatim>\<open>navigate\<close>, or an accept header that includes \<^verbatim>\<open>text/html\<close>): if the
  network fetch succeeds, the response handed to the caller is the live network
  response, and the root document entry of the current store becomes a copy of it
  provided the store accepts the write; when the store refuses the write, the stores
  keep their entries. If the network fetch fails, the handler answers with what
  \<^verbatim>\<open>caches.match('/index.html')\<close> finds: the cached root document when there is
  one, and otherwise no response (\<open>RespondWith None\<close>), which reaches the caller as a
  network error.
\<close>

theorem navigation_network_first:
  assumes "req_method req = ''GET''"
    and "new_URL e (req_url req) = Returned u"
    and "req_mode req = ''navigate'' \<or>
         includes_str (case req_accept req of None \<Rightarrow> [] | Some a \<Rightarrow> a) ''text/html''"
  shows "(\<forall>r. net e (req_url req) = Some r \<longrightarrow>
            fst (on_fetch cfg e req s) = RespondWith (Some r) \<and>
            (\<not> put_rejects e (resolve e ''/index.html'') r \<longrightarrow>
               cache_of (CACHE_NAME cfg) (caches (snd (on_fetch cfg e req s)))
                 (resolve e ''/index.html'') = Some r) \<and>
            (put_rejects e (resolve e ''/index.html'') r \<longrightarrow>
               caches (snd (on_fetch cfg e req s)) = caches_open (CACHE_NAME cfg) (caches s))) \<and>
         (net e (req_url req) = None \<longrightarrow>
            on_fetch cfg e req s =
              (RespondWith (caches_match (caches s) (resolve e ''/index.html'')), s))"
  using assms
  by (auto simp: on_fetch_def fetch_def update_index_def cache_put_def Let_def cache_of_set_cache)

text \<open>The witness: online, a request that accepts HTML is answered from the network and
  the root document entry is replaced by that answer; offline, a navigation is answered
  with the cached root document, and with nothing when the storage is empty.\<close>

theorem navigation_network_first_witness:
  "fst (on_fetch dial26 online (get ''/app.js'' ''cors'' [] (Some ''text/html,*/*'')) installed) =
     RespondWith (Some script) \<and>
   cache_of (CACHE_NAME dial26)
     (caches (snd (on_fetch dial26 online (get ''/app.js'' ''cors'' [] (Some ''text/html,*/*''))
        installed)))
     (resolve online ''/index.html'') = Some script \<and>
   on_fetch dial26 offline (get ''/'' ''navigate'' ''document'' None) installed =
     (RespondWith (Some page), installed) \<and>
   on_fetch dial26 offline (get ''/'' ''navigate'' ''document'' None) fresh =
     (RespondWith None, fresh)"
proof -
  let ?a = "get ''/app.js'' ''cors'' [] (Some ''text/html,*/*'')"
  let ?n = "get ''/'' ''navigate'' ''document'' None"
  have a1: "req_method ?a = ''GET''" by (simp add: get_def)
  have a2: "new_URL online (req_url ?a) = Returned \<lparr> origin = site, pathname = ''/app.js'' \<rparr>"
    by (simp add: get_def new_URL_def online_def site_url_def site_def)
  have a3: "req_mode ?a = ''navigate'' \<or>
      includes_str (case req_accept ?a of None \<Rightarrow> [] | Some a \<Rightarrow> a) ''text/html''"
    by (simp add: get_def)
  have a4: "net online (req_url ?a) = Some script"
    by (simp add: get_def online_def site_def)
  have a5: "\<not> put_rejects online (resolve online ''/index.html'') script"
    by (simp add: online_def script_def)
  have n1: "req_method ?n = ''GET''" by (simp add: get_def)
  have n2: "new_URL offline (req_url ?n) = Returned \<lparr> origin = site, pathname = ''/'' \<rparr>"
    by (simp add: get_def new_URL_def offline_def online_def site_url_def site_def)
  have n3: "req_mode ?n = ''navigate'' \<or>
      includes_str (case req_accept ?n of None \<Rightarrow> [] | Some a \<Rightarrow> a) ''text/html''"
    by (simp add: get_def)
  have n4: "net offline (req_url ?n) = None"
    by (simp add: offline_def)
  have m1: "caches_match (caches installed) (resolve offline ''/index.html'') = Some page"
    by (simp add: installed_def fresh_def shell_def offline_def online_def site_def)
  have m2: "caches_match (caches fresh) (resolve offline ''/index.html'') = None"
    by (simp add: fresh_def)
  from navigation_network_first [OF a1 a2 a3, of dial26 installed] a4 a5
  have "fst (on_fetch dial26 online ?a installed) = RespondWith (Some script) \<and>
        cache_of (CACHE_NAME dial26) (caches (snd (on_fetch dial26 online ?a installed)))
          (resolve online ''/index.html'') = Some script"
    by blast
  moreover from navigation_network_first [OF n1 n2 n3, of dial26 installed] n4 m1
  have "on_fetch dial26 offline ?n installed = (RespondWith (Some page), installed)"
    by simp
  moreover from navigation_network_first [OF n1 n2 n3, of dial26 fresh] n4 m2
  have "on_fetch dial26 offline ?n fresh = (RespondWith None, fresh)"
    by simp
  ultimately show ?thesis by blast
qed

text \<open>
  The claim as stated fails when the store refuses the write. The server answers a
  navigation with 206 Partial Content, which \<^verbatim>\<open>cache.put\<close> rejects: the caller
  receives the live response, and the root document entry is still the old page.
\<close>

theorem navigation_entry_not_updated:
  "fst (on_fetch dial26 online (get ''/part'' ''navigate'' ''document'' None) installed) =
     RespondWith (Some partial_page) \<and>
   cache_of (CACHE_NAME dial26)
     (caches (snd (on_fetch dial26 online (get ''/part'' ''navigate'' ''document'' None) installed)))
     (resolve online ''/index.html'') = Some page \<and>
   page \<noteq> partial_page"
  by (simp add: on_fetch_def get_def online_def site_def site_url_def new_URL_def fetch_def
      update_index_def installed_def fresh_def CACHE_NAME_def dial26_def caches_open_def
      cache_of_def cache_put_def partial_page_def page_def shell_def)

text \<open>
  C2. The claim is that the fetch phase stores a response only if its status is 200
  and it is same-origin. The cache-first branch checks both (lemma
  \<open>cache_first_stores_only_200\<close>); the navigation branch checks neither. Here a
  navigation to a page that the server answers with 404 replaces the cached root
  document by the 404 response.
\<close>

theorem navigation_stores_error_page:
  "fst (on_fetch dial26 online (get ''/old'' ''navigate'' ''document'' None) installed) =
     RespondWith (Some not_found) \<and>
   cache_of (CACHE_NAME dial26)
     (caches (snd (on_fetch dial26 online (get ''/old'' ''navigate'' ''document'' None) installed)))
     (site @ ''/index.html'') = Some not_found \<and>
   status not_found = 404"
  by (simp add: on_fetch_def get_def online_def site_def site_url_def new_URL_def fetch_def
      update_index_def installed_def fresh_def CACHE_NAME_def dial26_def caches_open_def
      cache_of_def cache_put_def not_found_def)

text \<open>
  C4. Generic assets fail explicitly. For every GET request that is neither a
  navigation nor an image, when no cache has an entry for it and the network fetch
  fails, the handler answers with the response it builds itself: status 503, status
  text \<^verbatim>\<open>Service Unavailable\<close>, no body. The answer does not depend on what the
  stores hold under the root document key, and the state is unchanged.
\<close>

theorem generic_asset_unavailable:
  assumes "req_method req = ''GET''"
    and "new_URL e (req_url req) = Returned u"
    and "req_mode req \<noteq> ''navigate''"
    and "\<not> includes_str (case req_accept req of None \<Rightarrow> [] | Some a \<Rightarrow> a) ''text/html''"
    and "req_destination req \<noteq> ''image''"
    and "\<not> image_regex_test (pathname u)"
    and "caches_match (caches s) (req_url req) = None"
    and "net e (req_url req) = None"
  shows "on_fetch cfg e req s =
           (RespondWith
              (Some \<lparr> status = 503, statusText = ''Service Unavailable'', body = None \<rparr>), s)"
  using assms by (simp add: on_fetch_def fetch_def isImageRequest_parsed)

text \<open>The witness: offline, a stylesheet that is not cached, while the root document
  is: the answer is the 503, not the cached page.\<close>

theorem generic_asset_unavailable_witness:
  "on_fetch dial26 offline (get ''/styles.css'' ''no-cors'' ''style'' (Some ''text/css,*/*;q=0.1''))
     installed =
     (RespondWith (Some \<lparr> status = 503, statusText = ''Service Unavailable'', body = None \<rparr>),
      installed) \<and>
   caches_match (caches installed) (resolve offline ''/index.html'') = Some page \<and>
   page \<noteq> \<lparr> status = 503, statusText = ''Service Unavailable'', body = None \<rparr>"
proof -
  let ?c = "get ''/styles.css'' ''no-cors'' ''style'' (Some ''text/css,*/*;q=0.1'')"
  let ?u = "\<lparr> origin = site, pathname = ''/styles.css'' \<rparr>"
  have h1: "req_method ?c = ''GET''" by (simp add: get_def)
  have h2: "new_URL offline (req_url ?c) = Returned ?u"
    by (simp add: get_def new_URL_def offline_def online_def site_url_def site_def)
  have h3: "req_mode ?c \<noteq> ''navigate''" by (simp add: get_def)
  have h4: "\<not> includes_str (case req_accept ?c of None \<Rightarrow> [] | Some a \<Rightarrow> a) ''text/html''"
    by (simp add: get_def)
  have h5: "req_destination ?c \<noteq> ''image''" by (simp add: get_def)
  have h6: "\<not> image_regex_test (pathname ?u)"
    by (simp add: image_regex_test_def image_extensions_def to_lower_def suffix_to_prefix)
  have h7: "caches_match (caches installed) (req_url ?c) = None"
    by (simp add: installed_def fresh_def shell_def get_def site_def)
  have h8: "net offline (req_url ?c) = None" by (simp add: offline_def)
  have m: "caches_match (caches installed) (resolve offline ''/index.html'') = Some page"
    by (simp add: installed_def fresh_def shell_def offline_def online_def site_def)
  have d: "page \<noteq> \<lparr> status = 503, statusText = ''Service Unavailable'', body = None \<rparr>"
    by (simp add: page_def)
  from generic_asset_unavailable [OF h1 h2 h3 h4 h5 h6 h7 h8, of dial26] m d
  show ?thesis by simp
qed

text \<open>
  C5. Images fall back to the icon. For every GET request that is not a navigation and
  is an image (its destination is \<^verbatim>\<open>image\<close>, or its path ends in one of the seven
  extensions in any case, see \<open>image_regex_test_iff\<close>), when no cache has an entry for it
  and the network fetch fails, the handler answers with what
  \<^verbatim>\<open>caches.match('/apple-touch-icon-180.png')\<close> finds: the cached fallback icon when
  there is one, and no response (\<open>RespondWith None\<close>) when there is none.
\<close>

theorem image_fallback:
  assumes "req_method req = ''GET''"
    and "new_URL e (req_url req) = Returned u"
    and "req_mode req \<noteq> ''navigate''"
    and "\<not> includes_str (case req_accept req of None \<Rightarrow> [] | Some a \<Rightarrow> a) ''text/html''"
    and "req_destination req = ''image'' \<or> image_regex_test (pathname u)"
    and "caches_match (caches s) (req_url req) = None"
    and "net e (req_url req) = None"
  shows "on_fetch cfg e req s =
           (RespondWith (caches_match (caches s) (resolve e ''/apple-touch-icon-180.png'')), s)"
  using assms by (simp add: on_fetch_def fetch_def isImageRequest_parsed)

text \<open>The witness: offline, a request for \<^verbatim>\<open>/photo.PNG\<close> with no destination is
  answered with the cached icon, and with nothing when the storage is empty.\<close>

theorem image_fallback_witness:
  "on_fetch dial26 offline (get ''/photo.PNG'' ''cors'' [] None) installed =
     (RespondWith (Some icon), installed) \<and>
   on_fetch dial26 offline (get ''/photo.PNG'' ''cors'' [] None) fresh =
     (RespondWith None, fresh)"
proof -
  let ?i = "get ''/photo.PNG'' ''cors'' [] None"
  let ?u = "\<lparr> origin = site, pathname = ''/photo.PNG'' \<rparr>"
  have h1: "req_method ?i = ''GET''" by (simp add: get_def)
  have h2: "new_URL offline (req_url ?i) = Returned ?u"
    by (simp add: get_def new_URL_def offline_def online_def site_url_def site_def)
  have h3: "req_mode ?i \<noteq> ''navigate''" by (simp add: get_def)
  have h4: "\<not> includes_str (case req_accept ?i of None \<Rightarrow> [] | Some a \<Rightarrow> a) ''text/html''"
    by (simp add: get_def)
  have h5: "req_destination ?i = ''image'' \<or> image_regex_test (pathname ?u)"
    by (simp add: image_regex_test_def image_extensions_def to_lower_def suffix_to_prefix)
  have h6: "caches_match (caches installed) (req_url ?i) = None"
    by (simp add: installed_def fresh_def shell_def get_def site_def)
  have h6': "caches_match (caches fresh) (req_url ?i) = None"
    by (simp add: fresh_def)
  have h7: "net offline (req_url ?i) = None" by (simp add: offline_def)
  have m: "caches_match (caches installed) (resolve offline ''/apple-touch-icon-180.png'') = Some icon"
    by (simp add: installed_def fresh_def shell_def offline_def online_def site_def)
  have m': "caches_match (caches fresh) (resolve offline ''/apple-touch-icon-180.png'') = None"
    by (simp add: fresh_def)
  from image_fallback [OF h1 h2 h3 h4 h5 h6 h7, of dial26] m
  have "on_fetch dial26 offline ?i installed = (RespondWith (Some icon), installed)"
    by simp
  moreover from image_fallback [OF h1 h2 h3 h4 h5 h6' h7, of dial26] m'
  have "on_fetch dial26 offline ?i fresh = (RespondWith None, fresh)"
    by simp
  ultimately show ?thesis by blast
qed

text \<open>
  C7. The claim is that a failed cache write is caught and logged. A failed write is a
  rejection of the promise that \<^verbatim>\<open>cache.put\<close> returns: the \<^verbatim>\<open>try\<close>/\<^verbatim>\<open>catch\<close>
  of the cache-first branch sees only a throw, and the navigation branch has no
  handler. With every write refused, a script request and a navigation both deliver
  the live response, store nothing, and leave the console empty.
\<close>

theorem rejected_write_not_logged:
  "on_fetch dial26 quota_exceeded (get ''/app.js'' ''no-cors'' ''script'' None) fresh =
     (RespondWith (Some script), fresh\<lparr>caches := [(''phone-keypad-v2'', Map.empty)]\<rparr>) \<and>
   on_fetch dial26 quota_exceeded (get ''/'' ''navigate'' ''document'' None) fresh =
     (RespondWith (Some page), fresh\<lparr>caches := [(''phone-keypad-v2'', Map.empty)]\<rparr>) \<and>
   console (fresh\<lparr>caches := [(''phone-keypad-v2'', Map.empty)]\<rparr>) = []"
  by (simp add: on_fetch_def get_def quota_exceeded_def online_def site_def site_url_def
      new_URL_def fetch_def update_index_def store_clone_def fresh_def CACHE_NAME_def dial26_def
      caches_open_def cache_of_def cache_put_def script_def page_def)

end
